theory Spec2Isabelle
  imports Complex_Main
begin

section \<open>Lindenmayer systems: the rewriter (lsys.py, generate_pattern)\<close>

text \<open>
  A state string is a Python \<open>str\<close>, here a \<open>string\<close>, with the symbols taken from the
  8-bit characters. The rewrite rules are a dictionary whose keys are documented as
  characters and whose values are replacement strings, here a map; the pass looks up one
  character at a time, so a key of another length would never be found. The level \<open>lvl\<close>
  is a Python integer, here an \<open>int\<close>; the limits of a machine (the memory a long string
  or array needs, the 64-bit integers of compiled code) are not modelled.
\<close>

type_synonym rules = "char \<rightharpoonup> string"

text \<open>\<open>rewrite_rules.get(symbol, symbol)\<close>: the rule of the symbol, or the symbol itself.\<close>

definition rule_get :: "rules \<Rightarrow> char \<Rightarrow> string" where
  "rule_get rewrite_rules symbol =
     (case rewrite_rules symbol of None \<Rightarrow> [symbol] | Some r \<Rightarrow> r)"

text \<open>
  One pass, \<open>''.join([rewrite_rules.get(symbol, symbol) for symbol in states])\<close>: the list
  comprehension walks the string from the left and collects one replacement per symbol,
  and \<open>join\<close> concatenates what was collected.
\<close>

primrec comprehension :: "rules \<Rightarrow> string \<Rightarrow> string list" where
  "comprehension rewrite_rules [] = []"
| "comprehension rewrite_rules (symbol # states) =
     rule_get rewrite_rules symbol # comprehension rewrite_rules states"

definition rewrite_pass :: "rules \<Rightarrow> string \<Rightarrow> string" where
  "rewrite_pass rewrite_rules states = concat (comprehension rewrite_rules states)"

text \<open>
  \<open>for _ in range(n): states = pass(states)\<close>, by recursion on the number of rounds that
  are left; \<open>range(lvl + 1)\<close> has \<open>nat (lvl + 1)\<close> elements (none when \<open>lvl + 1 \<le> 0\<close>).
  \<open>generate_pattern\<close> is the loop followed by the filter of line 57; the two phases are
  named \<open>expand\<close> and \<open>filter_drawable\<close>, as the specification names them.
\<close>

primrec rewrite_loop :: "nat \<Rightarrow> rules \<Rightarrow> string \<Rightarrow> string" where
  "rewrite_loop 0 rewrite_rules states = states"
| "rewrite_loop (Suc n) rewrite_rules states =
     rewrite_loop n rewrite_rules (rewrite_pass rewrite_rules states)"

definition expand :: "int \<Rightarrow> string \<Rightarrow> rules \<Rightarrow> string" where
  "expand lvl states rewrite_rules = rewrite_loop (nat (lvl + 1)) rewrite_rules states"

definition drawing_rules :: string where
  "drawing_rules = ''F+-''"

definition filter_drawable :: "string \<Rightarrow> string" where
  "filter_drawable states = filter (\<lambda>symbol. symbol \<in> set drawing_rules) states"

definition generate_pattern :: "int \<Rightarrow> string \<Rightarrow> rules \<Rightarrow> string" where
  "generate_pattern lvl states rewrite_rules = filter_drawable (expand lvl states rewrite_rules)"

section \<open>Numbers, arrays and errors\<close>

text \<open>
  The arrays of both modules hold \<open>float32\<close> numbers. They are modelled as reals: the
  arithmetic is the exact one, and the rounding of a stored value is left out. What a
  theorem below says about a number it says about the value the source's expression
  denotes.

  An exception of the source is a value of type \<open>error\<close>: a function that can raise
  returns \<open>error + 'a\<close>, with \<open>Inl\<close> for the exception.
\<close>

datatype error = ValueError | IndexError

text \<open>\<open>np.zeros(shape=n)\<close>: a negative dimension raises \<open>ValueError\<close>.\<close>

definition np_zeros :: "int \<Rightarrow> error + real list" where
  "np_zeros shape = (if shape < 0 then Inl ValueError else Inr (replicate (nat shape) 0))"

section \<open>Iterated function systems (ifs.py)\<close>

text \<open>
  \<open>np.random.random()\<close> reads the generator's global state. The model takes the sequence
  \<open>rng\<close> of the values the generator is going to return, and threads the number \<open>k\<close> of
  draws made so far through the loop: a draw returns \<open>rng k\<close> and leaves \<open>Suc k\<close>.

  The inner loop \<open>for j in param_indexes\<close> is \<open>ifs_scan\<close>, by recursion on the indexes still
  to be visited. On the first \<open>j\<close> with \<open>temp > p[j]\<close> it writes slot \<open>i\<close> of both arrays and
  breaks; it returns the arrays and, for the theorems only, the index it matched, \<open>None\<close>
  when the loop ran to its end without a match. Reading a parameter tuple past its end
  raises \<open>IndexError\<close>, and so does a write past the end of \<open>x\<close> or \<open>y\<close>. The second
  assignment reads \<open>x[i - 1]\<close> from the array the first one has already updated, as the
  source does. The slot \<open>i\<close> comes from \<open>range(1, lvl)\<close>, so \<open>i - 1\<close> is never negative and
  the subtraction is the one of the natural numbers.
\<close>

fun ifs_scan ::
  "real \<Rightarrow> real list \<Rightarrow> real list \<Rightarrow> real list \<Rightarrow> real list \<Rightarrow> real list \<Rightarrow> real list \<Rightarrow> real list \<Rightarrow>
   nat \<Rightarrow> nat list \<Rightarrow> real list \<times> real list \<Rightarrow> error + (nat option \<times> real list \<times> real list)" where
  "ifs_scan temp p a b c d e f i [] (x, y) = Inr (None, x, y)"
| "ifs_scan temp p a b c d e f i (j # js) (x, y) =
     (if j < length p then
        (if temp > p ! j then
           (if j < length a \<and> j < length b \<and> j < length e \<and>
               j < length c \<and> j < length d \<and> j < length f \<and>
               i < length x \<and> i < length y
            then
              (let x' = x[i := a ! j * x ! (i - 1) + b ! j * y ! (i - 1) + e ! j];
                   y' = y[i := c ! j * x' ! (i - 1) + d ! j * y ! (i - 1) + f ! j]
               in Inr (Some j, x', y'))
            else Inl IndexError)
         else ifs_scan temp p a b c d e f i js (x, y))
      else Inl IndexError)"

text \<open>The outer loop \<open>for i in range(1, lvl)\<close>, by recursion on the indexes still to come.\<close>

fun ifs_loop ::
  "(nat \<Rightarrow> real) \<Rightarrow> real list \<Rightarrow> real list \<Rightarrow> real list \<Rightarrow> real list \<Rightarrow> real list \<Rightarrow> real list \<Rightarrow>
   real list \<Rightarrow> nat list \<Rightarrow> nat \<times> real list \<times> real list \<Rightarrow> error + (nat \<times> real list \<times> real list)" where
  "ifs_loop rng p a b c d e f [] (k, x, y) = Inr (k, x, y)"
| "ifs_loop rng p a b c d e f (i # is) (k, x, y) =
     (case ifs_scan (rng k) p a b c d e f i [0..<length p] (x, y) of
        Inl err \<Rightarrow> Inl err
      | Inr (sel, x', y') \<Rightarrow> ifs_loop rng p a b c d e f is (Suc k, x', y'))"

definition ifs ::
  "(nat \<Rightarrow> real) \<Rightarrow> int \<Rightarrow> real list \<Rightarrow> real list \<Rightarrow> real list \<Rightarrow> real list \<Rightarrow> real list \<Rightarrow>
   real list \<Rightarrow> real list \<Rightarrow> error + (real list \<times> real list)" where
  "ifs rng lvl p a b c d e f =
     (let lvl' = lvl + 1 in
      case np_zeros lvl' of
        Inl err \<Rightarrow> Inl err
      | Inr x \<Rightarrow>
          (case np_zeros lvl' of
             Inl err \<Rightarrow> Inl err
           | Inr y \<Rightarrow>
               (case ifs_loop rng p a b c d e f [1..<nat lvl'] (0, x, y) of
                  Inl err \<Rightarrow> Inl err
                | Inr (k, x', y') \<Rightarrow> Inr (x', y'))))"

text \<open>
  The Clifford attractor: no draw is made, so the model has no \<open>rng\<close>. The loop
  \<open>for i in range(1, lvl)\<close> writes slot \<open>i\<close> of both arrays; an index outside an array
  raises \<open>IndexError\<close>.
\<close>

fun clifford_loop ::
  "real \<Rightarrow> real \<Rightarrow> real \<Rightarrow> real \<Rightarrow> nat list \<Rightarrow> real list \<times> real list \<Rightarrow>
   error + (real list \<times> real list)" where
  "clifford_loop a b c d [] (x, y) = Inr (x, y)"
| "clifford_loop a b c d (i # is) (x, y) =
     (if i < length x \<and> i < length y then
        (let x' = x[i := sin (a * y ! (i - 1)) + c * cos (a * x ! (i - 1))];
             y' = y[i := sin (b * x' ! (i - 1)) + d * cos (b * y ! (i - 1))]
         in clifford_loop a b c d is (x', y'))
      else Inl IndexError)"

definition clifford_attractor ::
  "int \<Rightarrow> real \<Rightarrow> real \<Rightarrow> real \<Rightarrow> real \<Rightarrow> error + (real list \<times> real list)" where
  "clifford_attractor lvl a b c d =
     (let lvl' = lvl + 1 in
      case np_zeros lvl' of
        Inl err \<Rightarrow> Inl err
      | Inr x \<Rightarrow>
          (case np_zeros lvl' of
             Inl err \<Rightarrow> Inl err
           | Inr y \<Rightarrow> clifford_loop a b c d [1..<nat lvl'] (x, y)))"

section \<open>Lindenmayer systems: the turtle (lsys.py, generate_points)\<close>

text \<open>
  A 2x1 displacement vector is a pair, a 2x2 matrix is a pair of rows, and the array
  \<open>points\<close> of shape \<open>(2, n)\<close>, which the source reads and writes by column only, is the list
  of its \<open>n\<close> columns.
\<close>

type_synonym vec2 = "real \<times> real"
type_synonym mat2 = "vec2 \<times> vec2"

definition calc_rot_matrix :: "real \<Rightarrow> mat2" where
  "calc_rot_matrix angle = ((cos angle, - sin angle), (sin angle, cos angle))"

text \<open>\<open>np.dot(m, vec)\<close> of a 2x2 matrix and a 2x1 vector.\<close>

definition dot :: "mat2 \<Rightarrow> vec2 \<Rightarrow> vec2" where
  "dot m vec =
     (fst (fst m) * fst vec + snd (fst m) * snd vec,
      fst (snd m) * fst vec + snd (snd m) * snd vec)"

definition radians :: "real \<Rightarrow> real" where
  "radians deg = deg * pi / 180"

definition vec_add :: "vec2 \<Rightarrow> vec2 \<Rightarrow> vec2" where
  "vec_add u v = (fst u + fst v, snd u + snd v)"

text \<open>
  The displacement vector of lines 98 to 102: the unit vector at \<open>alpha\<close>, divided by its
  length \<open>np.sqrt(vec[0] ** 2 + vec[1] ** 2)\<close> and multiplied by the step length.
\<close>

definition vec_len :: "vec2 \<Rightarrow> real" where
  "vec_len vec = sqrt ((fst vec)\<^sup>2 + (snd vec)\<^sup>2)"

definition init_vec :: "real \<Rightarrow> real \<Rightarrow> vec2" where
  "init_vec alpha len =
     (let vec = (cos alpha, sin alpha)
      in (fst vec / vec_len vec * len, snd vec / vec_len vec * len))"

text \<open>
  The loop \<open>for st in states\<close>, on the state \<open>(vec, points, point_index)\<close>. The branch of
  \<open>else\<close> takes every character that is neither \<open>+\<close> nor \<open>-\<close>; its write to column
  \<open>point_index\<close> raises \<open>IndexError\<close> when the array has no such column. \<open>point_index\<close>
  starts at 1 and only grows, so \<open>point_index - 1\<close> is never negative.
\<close>

fun turtle_loop ::
  "mat2 \<Rightarrow> mat2 \<Rightarrow> string \<Rightarrow> vec2 \<times> vec2 list \<times> nat \<Rightarrow> error + (vec2 \<times> vec2 list \<times> nat)" where
  "turtle_loop rot_left rot_right [] (vec, points, point_index) = Inr (vec, points, point_index)"
| "turtle_loop rot_left rot_right (st # states) (vec, points, point_index) =
     (if st = CHR ''+'' then
        turtle_loop rot_left rot_right states (dot rot_right vec, points, point_index)
      else if st = CHR ''-'' then
        turtle_loop rot_left rot_right states (dot rot_left vec, points, point_index)
      else if point_index < length points then
        turtle_loop rot_left rot_right states
          (vec, points[point_index := vec_add (points ! (point_index - 1)) vec], point_index + 1)
      else Inl IndexError)"

text \<open>The number of characters of \<open>states\<close> that take the \<open>else\<close> branch of the loop.\<close>

definition forward_steps :: "string \<Rightarrow> nat" where
  "forward_steps states = length (filter (\<lambda>st. st \<noteq> CHR ''+'' \<and> st \<noteq> CHR ''-'') states)"

definition generate_points :: "real \<Rightarrow> real \<Rightarrow> real \<Rightarrow> string \<Rightarrow> error + vec2 list" where
  "generate_points alpha theta len states =
     (let alpha' = radians alpha;
          theta' = radians theta;
          vec = init_vec alpha' len;
          rot_left = calc_rot_matrix theta';
          rot_right = calc_rot_matrix (- theta');
          points = replicate (count_list states (CHR ''F'') + 1) (0, 0)
      in case turtle_loop rot_left rot_right states (vec, points, 1) of
           Inl err \<Rightarrow> Inl err
         | Inr (vec', points', point_index) \<Rightarrow> Inr points')"

section \<open>Properties of the rewriter\<close>

lemma rewrite_pass_Nil: "rewrite_pass rewrite_rules [] = []"
  by (simp add: rewrite_pass_def)

lemma rewrite_pass_Cons:
  "rewrite_pass rewrite_rules (symbol # states) =
     rule_get rewrite_rules symbol @ rewrite_pass rewrite_rules states"
  by (simp add: rewrite_pass_def)

lemma rewrite_pass_append:
  "rewrite_pass rewrite_rules (xs @ ys) =
     rewrite_pass rewrite_rules xs @ rewrite_pass rewrite_rules ys"
  by (induction xs) (simp_all add: rewrite_pass_Nil rewrite_pass_Cons)

lemma rewrite_loop_funpow:
  "rewrite_loop n rewrite_rules states = (rewrite_pass rewrite_rules ^^ n) states"
  by (induction n arbitrary: states) (simp_all add: funpow_swap1)

lemma rewrite_pass_concat_map:
  "rewrite_pass rewrite_rules states =
     concat (map (\<lambda>symbol. case rewrite_rules symbol of None \<Rightarrow> [symbol] | Some r \<Rightarrow> r) states)"
  by (induction states) (simp_all add: rewrite_pass_def rule_get_def)

lemma tetra_pass1: "rewrite_pass [CHR ''F'' \<mapsto> ''F+F-F''] ''F'' = ''F+F-F''"
  by (simp add: rewrite_pass_def rule_get_def)

lemma tetra_pass2:
  "rewrite_pass [CHR ''F'' \<mapsto> ''F+F-F''] ''F+F-F'' = ''F+F-F+F+F-F-F+F-F''"
  by (simp add: rewrite_pass_def rule_get_def)

lemma tetra_level0: "expand 0 ''F'' [CHR ''F'' \<mapsto> ''F+F-F''] = ''F+F-F''"
  by (simp add: expand_def tetra_pass1)

lemma tetra_level1: "expand 1 ''F'' [CHR ''F'' \<mapsto> ''F+F-F''] = ''F+F-F+F+F-F-F+F-F''"
  by (simp add: expand_def numeral_2_eq_2 tetra_pass1 tetra_pass2)

text \<open>
  Claim C2. For a level \<open>N \<ge> 0\<close>, \<open>expand\<close> is exactly \<open>N + 1\<close> passes over the axiom, and
  a pass is the simultaneous substitution: the output is the concatenation, in order, of
  one replacement for each symbol of the pass's input, the rule's text where the symbol
  has a rule and the symbol itself where it has none. A replacement is put in as it is:
  no symbol of it is looked up again in the same pass.
\<close>

theorem expand_passes:
  assumes "0 \<le> N"
  shows "expand N ax rewrite_rules =
           ((\<lambda>states. concat (map (\<lambda>symbol. case rewrite_rules symbol of
                                              None \<Rightarrow> [symbol] | Some r \<Rightarrow> r) states))
             ^^ (nat N + 1)) ax"
proof -
  have "rewrite_pass rewrite_rules =
          (\<lambda>states. concat (map (\<lambda>symbol. case rewrite_rules symbol of
                                              None \<Rightarrow> [symbol] | Some r \<Rightarrow> r) states))"
    by (rule ext) (rule rewrite_pass_concat_map)
  moreover from assms have "nat (N + 1) = nat N + 1" by simp
  ultimately show ?thesis
    by (simp only: expand_def rewrite_loop_funpow)
qed

theorem expand_passes_witness:
  "(0::int) \<le> 1 \<and> expand 1 ''F'' [CHR ''F'' \<mapsto> ''F+F-F''] = ''F+F-F+F+F-F-F+F-F''"
  using expand_passes [of 1 "''F''" "[CHR ''F'' \<mapsto> ''F+F-F'']"]
  by (simp add: numeral_2_eq_2)

text \<open>
  Claim C5, as stated: level 0 on the axiom \<open>F\<close> with the rule \<open>F \<rightarrow> F+F-F\<close> makes two
  passes and yields \<open>F+F-F+F+F-F-F+F-F\<close>. It does not: \<open>range(0 + 1)\<close> has one element.
\<close>

theorem expand_tetra_level0_counterexample:
  "expand 0 ''F'' [CHR ''F'' \<mapsto> ''F+F-F''] \<noteq> ''F+F-F+F+F-F-F+F-F''"
  by (simp add: tetra_level0)

text \<open>
  Claim C5, amended. Level 0 makes one pass and yields \<open>F+F-F\<close>; the string
  \<open>F+F-F+F+F-F-F+F-F\<close> is the result of the two passes of level 1.
\<close>

theorem expand_tetra_levels:
  "expand 0 ''F'' [CHR ''F'' \<mapsto> ''F+F-F''] = rewrite_pass [CHR ''F'' \<mapsto> ''F+F-F''] ''F'' \<and>
   expand 0 ''F'' [CHR ''F'' \<mapsto> ''F+F-F''] = ''F+F-F'' \<and>
   expand 1 ''F'' [CHR ''F'' \<mapsto> ''F+F-F''] =
     rewrite_pass [CHR ''F'' \<mapsto> ''F+F-F''] (rewrite_pass [CHR ''F'' \<mapsto> ''F+F-F''] ''F'') \<and>
   expand 1 ''F'' [CHR ''F'' \<mapsto> ''F+F-F''] = ''F+F-F+F+F-F-F+F-F''"
  by (simp add: tetra_level0 tetra_level1 tetra_pass1 tetra_pass2)

section \<open>Properties of the iterated function system\<close>

lemma ifs_scan_find:
  assumes "length a = length p" "length b = length p" "length c = length p"
    "length d = length p" "length e = length p" "length f = length p"
    and "0 < i" "i < length x" "i < length y"
    and "\<forall>j\<in>set js. j < length p"
  shows "ifs_scan temp p a b c d e f i js (x, y) =
           (case find (\<lambda>j. p ! j < temp) js of
              None \<Rightarrow> Inr (None, x, y)
            | Some j \<Rightarrow>
                Inr (Some j,
                     x[i := a ! j * x ! (i - 1) + b ! j * y ! (i - 1) + e ! j],
                     y[i := c ! j * x ! (i - 1) + d ! j * y ! (i - 1) + f ! j]))"
  using assms
proof (induction js)
  case Nil
  then show ?case by simp
next
  case (Cons j js)
  then show ?case by (simp add: Let_def)
qed

lemma find_upt_Some:
  "find P [0..<n] = Some j \<longleftrightarrow> j < n \<and> P j \<and> (\<forall>k<j. \<not> P k)"
  by (auto simp: find_Some_iff)

lemma find_upt_None: "find P [0..<n] = None \<longleftrightarrow> (\<forall>j<n. \<not> P j)"
  by (auto simp: find_None_iff)

lemma sentinel_found:
  assumes "p \<noteq> []" "last p = - 1" "(0::real) \<le> u"
  shows "\<exists>j. find (\<lambda>j. p ! j < u) [0..<length p] = Some j"
proof -
  from assms have "length p - 1 < length p" "p ! (length p - 1) < u"
    by (simp_all add: last_conv_nth)
  then have "find (\<lambda>j. p ! j < u) [0..<length p] \<noteq> None"
    unfolding find_upt_None by blast
  then show ?thesis by blast
qed


lemma ifs_loop_upt:
  assumes lens: "length a = length p" "length b = length p" "length c = length p"
    "length d = length p" "length e = length p" "length f = length p"
  shows "0 < m \<Longrightarrow> length x = n \<Longrightarrow> length y = n \<Longrightarrow>
    \<exists>x' y'. ifs_loop rng p a b c d e f [m..<n] (k, x, y) = Inr (k + (n - m), x', y') \<and>
      length x' = n \<and> length y' = n \<and>
      (\<forall>t<m. x' ! t = x ! t \<and> y' ! t = y ! t) \<and>
      (\<forall>i. m \<le> i \<and> i < n \<longrightarrow>
         (case find (\<lambda>j. p ! j < rng (k + (i - m))) [0..<length p] of
            None \<Rightarrow> x' ! i = x ! i \<and> y' ! i = y ! i
          | Some j \<Rightarrow>
              x' ! i = a ! j * x' ! (i - 1) + b ! j * y' ! (i - 1) + e ! j \<and>
              y' ! i = c ! j * x' ! (i - 1) + d ! j * y' ! (i - 1) + f ! j))"
proof (induction "n - m" arbitrary: m k x y)
  case 0
  then have none: "\<And>i. \<not> (m \<le> i \<and> i < n)" by simp
  from 0 have "ifs_loop rng p a b c d e f [m..<n] (k, x, y) = Inr (k + (n - m), x, y)"
    by simp
  with 0 none show ?case by blast
next
  case (Suc w)
  from Suc.hyps(2) have mn: "m < n" and w: "w = n - Suc m" by simp_all
  let ?sel = "find (\<lambda>j. p ! j < rng k) [0..<length p]"
  define x1 where "x1 = (case ?sel of None \<Rightarrow> x
     | Some j \<Rightarrow> x[m := a ! j * x ! (m - 1) + b ! j * y ! (m - 1) + e ! j])"
  define y1 where "y1 = (case ?sel of None \<Rightarrow> y
     | Some j \<Rightarrow> y[m := c ! j * x ! (m - 1) + d ! j * y ! (m - 1) + f ! j])"
  have scan: "ifs_scan (rng k) p a b c d e f m [0..<length p] (x, y) = Inr (?sel, x1, y1)"
    using lens Suc.prems mn
    by (simp add: ifs_scan_find x1_def y1_def split: option.splits)
  have len1: "length x1 = n" "length y1 = n"
    using Suc.prems by (simp_all add: x1_def y1_def split: option.splits)
  have low1: "t < m \<Longrightarrow> x1 ! t = x ! t \<and> y1 ! t = y ! t" for t
    by (simp add: x1_def y1_def split: option.splits)
  have high1: "m < t \<Longrightarrow> x1 ! t = x ! t \<and> y1 ! t = y ! t" for t
    by (simp add: x1_def y1_def split: option.splits)
  from Suc.hyps(1) [OF w _ len1, of "Suc k"]
  obtain x' y' where
    run: "ifs_loop rng p a b c d e f [Suc m..<n] (Suc k, x1, y1) = Inr (Suc k + (n - Suc m), x', y')"
    and len': "length x' = n" "length y' = n"
    and low': "\<forall>t<Suc m. x' ! t = x1 ! t \<and> y' ! t = y1 ! t"
    and step': "\<forall>i. Suc m \<le> i \<and> i < n \<longrightarrow>
         (case find (\<lambda>j. p ! j < rng (Suc k + (i - Suc m))) [0..<length p] of
            None \<Rightarrow> x' ! i = x1 ! i \<and> y' ! i = y1 ! i
          | Some j \<Rightarrow>
              x' ! i = a ! j * x' ! (i - 1) + b ! j * y' ! (i - 1) + e ! j \<and>
              y' ! i = c ! j * x' ! (i - 1) + d ! j * y' ! (i - 1) + f ! j)"
    by auto
  have res: "ifs_loop rng p a b c d e f [m..<n] (k, x, y) = Inr (k + (n - m), x', y')"
    using mn run scan by (simp add: upt_conv_Cons)
  have low: "\<forall>t<m. x' ! t = x ! t \<and> y' ! t = y ! t"
    using low' low1 by simp
  have at_m: "case ?sel of
            None \<Rightarrow> x' ! m = x ! m \<and> y' ! m = y ! m
          | Some j \<Rightarrow>
              x' ! m = a ! j * x' ! (m - 1) + b ! j * y' ! (m - 1) + e ! j \<and>
              y' ! m = c ! j * x' ! (m - 1) + d ! j * y' ! (m - 1) + f ! j"
  proof -
    have "x' ! m = x1 ! m" "y' ! m = y1 ! m" using low' by simp_all
    moreover have "x' ! (m - 1) = x ! (m - 1)" "y' ! (m - 1) = y ! (m - 1)"
      using low \<open>0 < m\<close> by simp_all
    ultimately show ?thesis
      using Suc.prems mn by (simp add: x1_def y1_def split: option.splits)
  qed
  have step: "\<forall>i. m \<le> i \<and> i < n \<longrightarrow>
         (case find (\<lambda>j. p ! j < rng (k + (i - m))) [0..<length p] of
            None \<Rightarrow> x' ! i = x ! i \<and> y' ! i = y ! i
          | Some j \<Rightarrow>
              x' ! i = a ! j * x' ! (i - 1) + b ! j * y' ! (i - 1) + e ! j \<and>
              y' ! i = c ! j * x' ! (i - 1) + d ! j * y' ! (i - 1) + f ! j)"
  proof (intro allI impI)
    fix i assume i: "m \<le> i \<and> i < n"
    show "case find (\<lambda>j. p ! j < rng (k + (i - m))) [0..<length p] of
            None \<Rightarrow> x' ! i = x ! i \<and> y' ! i = y ! i
          | Some j \<Rightarrow>
              x' ! i = a ! j * x' ! (i - 1) + b ! j * y' ! (i - 1) + e ! j \<and>
              y' ! i = c ! j * x' ! (i - 1) + d ! j * y' ! (i - 1) + f ! j"
    proof (cases "i = m")
      case True
      from at_m show ?thesis unfolding True by simp
    next
      case False
      with i have gt: "Suc m \<le> i \<and> i < n" by simp
      then have idx: "Suc k + (i - Suc m) = k + (i - m)" by arith
      from gt high1 [of i] have same: "x1 ! i = x ! i" "y1 ! i = y ! i" by simp_all
      from step' gt
      have "case find (\<lambda>j. p ! j < rng (Suc k + (i - Suc m))) [0..<length p] of
            None \<Rightarrow> x' ! i = x1 ! i \<and> y' ! i = y1 ! i
          | Some j \<Rightarrow>
              x' ! i = a ! j * x' ! (i - 1) + b ! j * y' ! (i - 1) + e ! j \<and>
              y' ! i = c ! j * x' ! (i - 1) + d ! j * y' ! (i - 1) + f ! j"
        by blast
      then show ?thesis unfolding idx same .
    qed
  qed
  from res len' low step show ?case by blast
qed

lemma clifford_loop_upt:
  "0 < m \<Longrightarrow> length x = n \<Longrightarrow> length y = n \<Longrightarrow>
    \<exists>x' y'. clifford_loop a b c d [m..<n] (x, y) = Inr (x', y') \<and>
      length x' = n \<and> length y' = n \<and>
      (\<forall>t<m. x' ! t = x ! t \<and> y' ! t = y ! t) \<and>
      (\<forall>i. m \<le> i \<and> i < n \<longrightarrow>
         x' ! i = sin (a * y' ! (i - 1)) + c * cos (a * x' ! (i - 1)) \<and>
         y' ! i = sin (b * x' ! (i - 1)) + d * cos (b * y' ! (i - 1)))"
proof (induction "n - m" arbitrary: m x y)
  case 0
  then have none: "\<And>i. \<not> (m \<le> i \<and> i < n)" by simp
  from 0 have "clifford_loop a b c d [m..<n] (x, y) = Inr (x, y)"
    by simp
  with 0 none show ?case by blast
next
  case (Suc w)
  from Suc.hyps(2) have mn: "m < n" and w: "w = n - Suc m" by simp_all
  define x1 where "x1 = x[m := sin (a * y ! (m - 1)) + c * cos (a * x ! (m - 1))]"
  define y1 where "y1 = y[m := sin (b * x ! (m - 1)) + d * cos (b * y ! (m - 1))]"
  have len1: "length x1 = n" "length y1 = n"
    using Suc.prems by (simp_all add: x1_def y1_def)
  have low1: "t < m \<Longrightarrow> x1 ! t = x ! t \<and> y1 ! t = y ! t" for t
    by (simp add: x1_def y1_def)
  have at1: "x1 ! m = sin (a * y ! (m - 1)) + c * cos (a * x ! (m - 1))"
    "y1 ! m = sin (b * x ! (m - 1)) + d * cos (b * y ! (m - 1))"
    using Suc.prems mn by (simp_all add: x1_def y1_def)
  from Suc.hyps(1) [OF w _ len1]
  obtain x' y' where
    run: "clifford_loop a b c d [Suc m..<n] (x1, y1) = Inr (x', y')"
    and len': "length x' = n" "length y' = n"
    and low': "\<forall>t<Suc m. x' ! t = x1 ! t \<and> y' ! t = y1 ! t"
    and step': "\<forall>i. Suc m \<le> i \<and> i < n \<longrightarrow>
         x' ! i = sin (a * y' ! (i - 1)) + c * cos (a * x' ! (i - 1)) \<and>
         y' ! i = sin (b * x' ! (i - 1)) + d * cos (b * y' ! (i - 1))"
    by auto
  have res: "clifford_loop a b c d [m..<n] (x, y) = Inr (x', y')"
    using mn run Suc.prems \<open>0 < m\<close>
    by (simp add: upt_conv_Cons x1_def y1_def Let_def)
  have low: "\<forall>t<m. x' ! t = x ! t \<and> y' ! t = y ! t"
    using low' low1 by simp
  have at_m: "x' ! m = sin (a * y' ! (m - 1)) + c * cos (a * x' ! (m - 1)) \<and>
              y' ! m = sin (b * x' ! (m - 1)) + d * cos (b * y' ! (m - 1))"
  proof -
    have "x' ! m = x1 ! m" "y' ! m = y1 ! m" using low' by simp_all
    moreover have "x' ! (m - 1) = x ! (m - 1)" "y' ! (m - 1) = y ! (m - 1)"
      using low \<open>0 < m\<close> by simp_all
    ultimately show ?thesis using at1 by simp
  qed
  have step: "\<forall>i. m \<le> i \<and> i < n \<longrightarrow>
         x' ! i = sin (a * y' ! (i - 1)) + c * cos (a * x' ! (i - 1)) \<and>
         y' ! i = sin (b * x' ! (i - 1)) + d * cos (b * y' ! (i - 1))"
  proof (intro allI impI)
    fix i assume i: "m \<le> i \<and> i < n"
    show "x' ! i = sin (a * y' ! (i - 1)) + c * cos (a * x' ! (i - 1)) \<and>
          y' ! i = sin (b * x' ! (i - 1)) + d * cos (b * y' ! (i - 1))"
    proof (cases "i = m")
      case True
      from at_m show ?thesis unfolding True .
    next
      case False
      with i have "Suc m \<le> i \<and> i < n" by simp
      with step' show ?thesis by blast
    qed
  qed
  from res len' low step show ?case by blast
qed

lemma ifs_result:
  assumes lens: "length a = length p" "length b = length p" "length c = length p"
    "length d = length p" "length e = length p" "length f = length p"
    and lvl: "0 \<le> lvl"
  shows "\<exists>x y. ifs rng lvl p a b c d e f = Inr (x, y) \<and>
      length x = nat lvl + 1 \<and> length y = nat lvl + 1 \<and> x ! 0 = 0 \<and> y ! 0 = 0 \<and>
      (\<forall>i. 1 \<le> i \<and> i \<le> nat lvl \<longrightarrow>
         (case find (\<lambda>j. p ! j < rng (i - 1)) [0..<length p] of
            None \<Rightarrow> x ! i = 0 \<and> y ! i = 0
          | Some j \<Rightarrow>
              x ! i = a ! j * x ! (i - 1) + b ! j * y ! (i - 1) + e ! j \<and>
              y ! i = c ! j * x ! (i - 1) + d ! j * y ! (i - 1) + f ! j))"
proof -
  let ?n = "nat (lvl + 1)"
  let ?z = "replicate ?n (0::real)"
  from lvl have n: "?n = nat lvl + 1" by simp
  from ifs_loop_upt [OF lens, of 1 ?z ?n ?z rng 0]
  obtain x' y' where
    run: "ifs_loop rng p a b c d e f [1..<?n] (0, ?z, ?z) = Inr (0 + (?n - 1), x', y')"
    and len': "length x' = ?n" "length y' = ?n"
    and low': "\<forall>t<1. x' ! t = ?z ! t \<and> y' ! t = ?z ! t"
    and step': "\<forall>i. 1 \<le> i \<and> i < ?n \<longrightarrow>
         (case find (\<lambda>j. p ! j < rng (0 + (i - 1))) [0..<length p] of
            None \<Rightarrow> x' ! i = ?z ! i \<and> y' ! i = ?z ! i
          | Some j \<Rightarrow>
              x' ! i = a ! j * x' ! (i - 1) + b ! j * y' ! (i - 1) + e ! j \<and>
              y' ! i = c ! j * x' ! (i - 1) + d ! j * y' ! (i - 1) + f ! j)"
    by auto
  from lvl run have res: "ifs rng lvl p a b c d e f = Inr (x', y')"
    by (simp add: ifs_def np_zeros_def)
  from low' lvl have origin: "x' ! 0 = 0" "y' ! 0 = 0" by simp_all
  have step: "\<forall>i. 1 \<le> i \<and> i \<le> nat lvl \<longrightarrow>
         (case find (\<lambda>j. p ! j < rng (i - 1)) [0..<length p] of
            None \<Rightarrow> x' ! i = 0 \<and> y' ! i = 0
          | Some j \<Rightarrow>
              x' ! i = a ! j * x' ! (i - 1) + b ! j * y' ! (i - 1) + e ! j \<and>
              y' ! i = c ! j * x' ! (i - 1) + d ! j * y' ! (i - 1) + f ! j)"
  proof (intro allI impI)
    fix i assume i: "1 \<le> i \<and> i \<le> nat lvl"
    with n have i': "1 \<le> i \<and> i < ?n" by simp
    then have z: "?z ! i = 0" by simp
    from step' i'
    have "case find (\<lambda>j. p ! j < rng (0 + (i - 1))) [0..<length p] of
            None \<Rightarrow> x' ! i = ?z ! i \<and> y' ! i = ?z ! i
          | Some j \<Rightarrow>
              x' ! i = a ! j * x' ! (i - 1) + b ! j * y' ! (i - 1) + e ! j \<and>
              y' ! i = c ! j * x' ! (i - 1) + d ! j * y' ! (i - 1) + f ! j"
      by blast
    then show "case find (\<lambda>j. p ! j < rng (i - 1)) [0..<length p] of
            None \<Rightarrow> x' ! i = 0 \<and> y' ! i = 0
          | Some j \<Rightarrow>
              x' ! i = a ! j * x' ! (i - 1) + b ! j * y' ! (i - 1) + e ! j \<and>
              y' ! i = c ! j * x' ! (i - 1) + d ! j * y' ! (i - 1) + f ! j"
      unfolding z add_0 .
  qed
  from len' n have len: "length x' = nat lvl + 1" "length y' = nat lvl + 1" by simp_all
  from res len origin step show ?thesis by blast
qed

lemma clifford_result:
  assumes lvl: "0 \<le> lvl"
  shows "\<exists>x y. clifford_attractor lvl a b c d = Inr (x, y) \<and>
      length x = nat lvl + 1 \<and> length y = nat lvl + 1 \<and> x ! 0 = 0 \<and> y ! 0 = 0 \<and>
      (\<forall>i. 1 \<le> i \<and> i \<le> nat lvl \<longrightarrow>
         x ! i = sin (a * y ! (i - 1)) + c * cos (a * x ! (i - 1)) \<and>
         y ! i = sin (b * x ! (i - 1)) + d * cos (b * y ! (i - 1)))"
proof -
  let ?n = "nat (lvl + 1)"
  let ?z = "replicate ?n (0::real)"
  from lvl have n: "?n = nat lvl + 1" by simp
  from clifford_loop_upt [of 1 ?z ?n ?z a b c d]
  obtain x' y' where
    run: "clifford_loop a b c d [1..<?n] (?z, ?z) = Inr (x', y')"
    and len': "length x' = ?n" "length y' = ?n"
    and low': "\<forall>t<1. x' ! t = ?z ! t \<and> y' ! t = ?z ! t"
    and step': "\<forall>i. 1 \<le> i \<and> i < ?n \<longrightarrow>
         x' ! i = sin (a * y' ! (i - 1)) + c * cos (a * x' ! (i - 1)) \<and>
         y' ! i = sin (b * x' ! (i - 1)) + d * cos (b * y' ! (i - 1))"
    by auto
  from lvl run have res: "clifford_attractor lvl a b c d = Inr (x', y')"
    by (simp add: clifford_attractor_def np_zeros_def)
  from low' lvl have origin: "x' ! 0 = 0" "y' ! 0 = 0" by simp_all
  have step: "\<forall>i. 1 \<le> i \<and> i \<le> nat lvl \<longrightarrow>
         x' ! i = sin (a * y' ! (i - 1)) + c * cos (a * x' ! (i - 1)) \<and>
         y' ! i = sin (b * x' ! (i - 1)) + d * cos (b * y' ! (i - 1))"
    using step' n by simp
  from len' n have len: "length x' = nat lvl + 1" "length y' = nat lvl + 1" by simp_all
  from res len origin step show ?thesis by blast
qed

lemma ifs_level0: "ifs rng 0 p a b c d e f = Inr ([0], [0])"
  by (simp add: ifs_def np_zeros_def)

lemma clifford_level0: "clifford_attractor 0 a b c d = Inr ([0], [0])"
  by (simp add: clifford_attractor_def np_zeros_def)

text \<open>
  Claim C1. Let the parameter arrays have one length, the thresholds end in the sentinel
  \<open>-1\<close>, and every draw lie in \<open>[0, 1)\<close>. Then for a level \<open>lvl \<ge> 0\<close> the generator
  returns arrays \<open>x\<close>, \<open>y\<close>, and at every step \<open>i\<close> from 1 to \<open>lvl\<close>, whose draw is
  \<open>rng (i - 1)\<close>, there is a map \<open>j\<close> whose threshold is below the draw while no threshold
  before it in the list is: point \<open>i\<close> is the affine image of point \<open>i - 1\<close> under that
  first map, and under no later one, the scan having stopped there. (The order of the
  thresholds is not needed for this.)
\<close>

theorem ifs_first_match:
  assumes "length a = length p" "length b = length p" "length c = length p"
    "length d = length p" "length e = length p" "length f = length p"
    and "0 \<le> lvl"
    and "p \<noteq> []" "last p = - 1"
    and "\<forall>k. 0 \<le> rng k \<and> rng k < 1"
  shows "\<exists>x y. ifs rng lvl p a b c d e f = Inr (x, y) \<and>
      (\<forall>i. 1 \<le> i \<and> i \<le> nat lvl \<longrightarrow>
         (\<exists>j<length p. p ! j < rng (i - 1) \<and> (\<forall>k<j. \<not> p ! k < rng (i - 1)) \<and>
            x ! i = a ! j * x ! (i - 1) + b ! j * y ! (i - 1) + e ! j \<and>
            y ! i = c ! j * x ! (i - 1) + d ! j * y ! (i - 1) + f ! j))"
proof -
  from ifs_result [OF assms(1-7), of rng]
  obtain x y where res: "ifs rng lvl p a b c d e f = Inr (x, y)"
    and step: "\<forall>i. 1 \<le> i \<and> i \<le> nat lvl \<longrightarrow>
         (case find (\<lambda>j. p ! j < rng (i - 1)) [0..<length p] of
            None \<Rightarrow> x ! i = 0 \<and> y ! i = 0
          | Some j \<Rightarrow>
              x ! i = a ! j * x ! (i - 1) + b ! j * y ! (i - 1) + e ! j \<and>
              y ! i = c ! j * x ! (i - 1) + d ! j * y ! (i - 1) + f ! j)"
    by blast
  have "\<exists>j<length p. p ! j < rng (i - 1) \<and> (\<forall>k<j. \<not> p ! k < rng (i - 1)) \<and>
            x ! i = a ! j * x ! (i - 1) + b ! j * y ! (i - 1) + e ! j \<and>
            y ! i = c ! j * x ! (i - 1) + d ! j * y ! (i - 1) + f ! j"
    if i: "1 \<le> i \<and> i \<le> nat lvl" for i
  proof -
    from assms(10) have "0 \<le> rng (i - 1)" by blast
    from sentinel_found [OF assms(8,9) this]
    obtain j where j: "find (\<lambda>j. p ! j < rng (i - 1)) [0..<length p] = Some j" ..
    with step i
    have "x ! i = a ! j * x ! (i - 1) + b ! j * y ! (i - 1) + e ! j \<and>
          y ! i = c ! j * x ! (i - 1) + d ! j * y ! (i - 1) + f ! j"
      by force
    moreover from j have "j < length p \<and> p ! j < rng (i - 1) \<and> (\<forall>k<j. \<not> p ! k < rng (i - 1))"
      by (simp add: find_upt_Some)
    ultimately show ?thesis by blast
  qed
  with res show ?thesis by blast
qed

theorem ifs_first_match_witness:
  "\<exists>x y. ifs (\<lambda>k. 1 / 2) 2 [1 / 4, - 1] [0, 1] [0, 0] [0, 0] [0, 1] [5, 1] [5, 1] = Inr (x, y) \<and>
      (\<forall>i. 1 \<le> i \<and> i \<le> nat 2 \<longrightarrow>
         (\<exists>j<length [1 / 4, - 1 :: real]. [1 / 4, - 1] ! j < (\<lambda>k. 1 / 2 :: real) (i - 1) \<and>
            (\<forall>k<j. \<not> [1 / 4, - 1] ! k < (\<lambda>k. 1 / 2 :: real) (i - 1)) \<and>
            x ! i = [0, 1] ! j * x ! (i - 1) + [0, 0] ! j * y ! (i - 1) + [5, 1] ! j \<and>
            y ! i = [0, 0] ! j * x ! (i - 1) + [0, 1] ! j * y ! (i - 1) + [5, 1] ! j))"
  by (rule ifs_first_match) simp_all

text \<open>
  Claim C8. With the sentinel \<open>-1\<close> as the last threshold and a draw \<open>temp \<ge> 0\<close>, which
  every draw from \<open>[0, 1)\<close> is, the scan over \<open>range(len(p))\<close> leaves by its \<open>break\<close>: it
  returns with one matched map \<open>j\<close>, the first whose threshold is below the draw, and
  never by running to the end of the list with slot \<open>i\<close> unwritten.
\<close>

theorem ifs_scan_sentinel:
  assumes "length a = length p" "length b = length p" "length c = length p"
    "length d = length p" "length e = length p" "length f = length p"
    and "p \<noteq> []" "last p = - 1"
    and "0 \<le> temp"
    and "0 < i" "i < length x" "i < length y"
  shows "\<exists>j x' y'. ifs_scan temp p a b c d e f i [0..<length p] (x, y) = Inr (Some j, x', y') \<and>
           j < length p \<and> p ! j < temp \<and> (\<forall>k<j. \<not> p ! k < temp)"
proof -
  from sentinel_found [OF assms(7-9)]
  obtain j where j: "find (\<lambda>j. p ! j < temp) [0..<length p] = Some j" ..
  then have "j < length p \<and> p ! j < temp \<and> (\<forall>k<j. \<not> p ! k < temp)"
    by (simp add: find_upt_Some)
  moreover have "\<exists>x' y'. ifs_scan temp p a b c d e f i [0..<length p] (x, y) = Inr (Some j, x', y')"
    using assms(1-6,10-12) j by (simp add: ifs_scan_find)
  ultimately show ?thesis by blast
qed

theorem ifs_scan_sentinel_witness:
  "\<exists>j x' y'. ifs_scan (1 / 20) [15 / 100, 8 / 100, 1 / 100, - 1] [85 / 100, - 15 / 100, 2 / 10, 0]
       [4 / 100, 28 / 100, - 26 / 100, 0] [- 4 / 100, 26 / 100, 23 / 100, 0]
       [85 / 100, 24 / 100, 22 / 100, 16 / 100] [0, 0, 0, 0] [16 / 10, 44 / 100, 16 / 10, 0]
       1 [0..<length [15 / 100, 8 / 100, 1 / 100, - 1 :: real]] ([0, 0], [0, 0]) = Inr (Some j, x', y') \<and>
     j < length [15 / 100, 8 / 100, 1 / 100, - 1 :: real] \<and>
     [15 / 100, 8 / 100, 1 / 100, - 1] ! j < (1 / 20 :: real) \<and>
     (\<forall>k<j. \<not> [15 / 100, 8 / 100, 1 / 100, - 1] ! k < (1 / 20 :: real))"
  by (rule ifs_scan_sentinel) simp_all

text \<open>
  Claim C4. For a level \<open>lvl \<ge> 0\<close> the attractor returns arrays that start at
  \<open>x[0] = y[0] = 0\<close> and satisfy the recurrence at every \<open>i\<close> from 1 to \<open>lvl\<close>. The
  result is a function of \<open>(lvl, a, b, c, d)\<close> alone: \<open>clifford_attractor\<close> makes no draw
  and takes no \<open>rng\<close>, so two calls on the same arguments return the same arrays.
\<close>

theorem clifford_recurrence:
  assumes "0 \<le> lvl"
  shows "\<exists>x y. clifford_attractor lvl a b c d = Inr (x, y) \<and> x ! 0 = 0 \<and> y ! 0 = 0 \<and>
      (\<forall>i. 1 \<le> i \<and> i \<le> nat lvl \<longrightarrow>
         x ! i = sin (a * y ! (i - 1)) + c * cos (a * x ! (i - 1)) \<and>
         y ! i = sin (b * x ! (i - 1)) + d * cos (b * y ! (i - 1)))"
  using clifford_result [OF assms, of a b c d] by blast

theorem clifford_recurrence_witness:
  "\<exists>x y. clifford_attractor 2 0 0 2 3 = Inr (x, y) \<and> x ! 0 = 0 \<and> y ! 0 = 0 \<and>
      (\<forall>i. 1 \<le> i \<and> i \<le> nat 2 \<longrightarrow>
         x ! i = sin (0 * y ! (i - 1)) + 2 * cos (0 * x ! (i - 1)) \<and>
         y ! i = sin (0 * x ! (i - 1)) + 3 * cos (0 * y ! (i - 1)))"
  by (rule clifford_recurrence) simp

text \<open>
  Claim C6. For a level \<open>lvl \<ge> 0\<close> (and, for the function system, parameter arrays of
  one length) both generators return two arrays of length \<open>lvl + 1\<close> whose point 0 is the
  origin, whatever the parameters and the draws; at level 0 the result is the single
  point \<open>(0, 0)\<close>.
\<close>

theorem generators_length_origin:
  assumes "length a = length p" "length b = length p" "length c = length p"
    "length d = length p" "length e = length p" "length f = length p"
    and "0 \<le> lvl"
  shows "(\<exists>x y. ifs rng lvl p a b c d e f = Inr (x, y) \<and>
            length x = nat lvl + 1 \<and> length y = nat lvl + 1 \<and> x ! 0 = 0 \<and> y ! 0 = 0) \<and>
         (\<exists>x y. clifford_attractor lvl a' b' c' d' = Inr (x, y) \<and>
            length x = nat lvl + 1 \<and> length y = nat lvl + 1 \<and> x ! 0 = 0 \<and> y ! 0 = 0) \<and>
         ifs rng 0 p a b c d e f = Inr ([0], [0]) \<and>
         clifford_attractor 0 a' b' c' d' = Inr ([0], [0])"
proof -
  from ifs_result [OF assms, of rng]
  have "\<exists>x y. ifs rng lvl p a b c d e f = Inr (x, y) \<and>
            length x = nat lvl + 1 \<and> length y = nat lvl + 1 \<and> x ! 0 = 0 \<and> y ! 0 = 0"
    by blast
  moreover from clifford_result [OF assms(7), of a' b' c' d']
  have "\<exists>x y. clifford_attractor lvl a' b' c' d' = Inr (x, y) \<and>
            length x = nat lvl + 1 \<and> length y = nat lvl + 1 \<and> x ! 0 = 0 \<and> y ! 0 = 0"
    by blast
  ultimately show ?thesis
    by (simp only: ifs_level0 clifford_level0 simp_thms)
qed

theorem generators_length_origin_witness:
  "(\<exists>x y. ifs (\<lambda>k. 1 / 2) 3 [- 1] [0] [0] [0] [0] [5] [5] = Inr (x, y) \<and>
            length x = nat 3 + 1 \<and> length y = nat 3 + 1 \<and> x ! 0 = 0 \<and> y ! 0 = 0) \<and>
         (\<exists>x y. clifford_attractor 3 (17 / 10) (17 / 10) (6 / 100) (12 / 10) = Inr (x, y) \<and>
            length x = nat 3 + 1 \<and> length y = nat 3 + 1 \<and> x ! 0 = 0 \<and> y ! 0 = 0) \<and>
         ifs (\<lambda>k. 1 / 2) 0 [- 1] [0] [0] [0] [0] [5] [5] = Inr ([0], [0]) \<and>
         clifford_attractor 0 (17 / 10) (17 / 10) (6 / 100) (12 / 10) = Inr ([0], [0])"
  by (rule generators_length_origin) simp_all

section \<open>Levels below zero\<close>

lemma rewrite_loop_negative: "lvl < 0 \<Longrightarrow> expand lvl states rewrite_rules = states"
  by (simp add: expand_def)

lemma ifs_level_minus1: "ifs rng (- 1) p a b c d e f = Inr ([], [])"
  by (simp add: ifs_def np_zeros_def)

lemma ifs_level_below_minus1: "lvl < - 1 \<Longrightarrow> ifs rng lvl p a b c d e f = Inl ValueError"
  by (simp add: ifs_def np_zeros_def)

lemma expand_level0: "expand 0 states rewrite_rules = rewrite_pass rewrite_rules states"
  by (simp add: expand_def)

text \<open>
  Claim C9, as stated: every negative level makes both generators fail with an
  invalid-argument error, and level 0 gives the origin alone, respectively the axiom
  alone. Neither function checks its level. At level \<open>-1\<close> the function system returns two
  empty arrays; the rewriter at level \<open>-1\<close> returns the filtered axiom, having no way to
  fail; and at level 0 the rewriter has already rewritten the axiom once.
\<close>

theorem negative_level_counterexample:
  "ifs (\<lambda>k. 1 / 2) (- 1) [- 1] [0] [0] [0] [0] [5] [5] = Inr ([], []) \<and>
   generate_pattern (- 1) ''FX'' [CHR ''X'' \<mapsto> ''X+YF+'', CHR ''Y'' \<mapsto> ''-FX-Y''] = ''F'' \<and>
   expand 0 ''FX'' [CHR ''X'' \<mapsto> ''X+YF+'', CHR ''Y'' \<mapsto> ''-FX-Y''] \<noteq> ''FX''"
  by (simp add: ifs_level_minus1 generate_pattern_def rewrite_loop_negative filter_drawable_def
      drawing_rules_def expand_level0 rewrite_pass_def rule_get_def)

text \<open>
  Claim C9, amended. For a negative level the rewriter makes no pass and returns the
  axiom, filtered to the drawing alphabet. The function system returns two empty arrays
  at level \<open>-1\<close> and fails in \<open>np.zeros\<close>, on the negative length, at every level below
  \<open>-1\<close>. Level 0 is valid: the function system returns the origin alone, and the rewriter
  makes one pass over the axiom.
\<close>

theorem negative_level_behaviour:
  "(lvl < 0 \<longrightarrow> expand lvl states rewrite_rules = states \<and>
       generate_pattern lvl states rewrite_rules = filter_drawable states) \<and>
   ifs rng (- 1) p a b c d e f = Inr ([], []) \<and>
   (lvl < - 1 \<longrightarrow> ifs rng lvl p a b c d e f = Inl ValueError) \<and>
   ifs rng 0 p a b c d e f = Inr ([0], [0]) \<and>
   expand 0 states rewrite_rules = rewrite_pass rewrite_rules states"
  by (simp add: rewrite_loop_negative generate_pattern_def ifs_level_minus1
      ifs_level_below_minus1 ifs_level0 expand_level0)

theorem negative_level_behaviour_witness:
  "expand (- 2) ''FX'' [CHR ''X'' \<mapsto> ''X+YF+''] = ''FX'' \<and>
   generate_pattern (- 2) ''FX'' [CHR ''X'' \<mapsto> ''X+YF+''] = filter_drawable ''FX'' \<and>
   ifs (\<lambda>k. 1 / 2) (- 2) [- 1] [0] [0] [0] [0] [5] [5] = Inl ValueError"
  using negative_level_behaviour [of "- 2" "''FX''" "[CHR ''X'' \<mapsto> ''X+YF+'']"
      "\<lambda>k. 1 / 2" "[- 1]" "[0]" "[0]" "[0]" "[0]" "[5]" "[5]"]
  by simp

section \<open>Properties of the turtle\<close>

lemma dot_rot_norm:
  "(fst (dot (calc_rot_matrix t) v))\<^sup>2 + (snd (dot (calc_rot_matrix t) v))\<^sup>2 =
     (fst v)\<^sup>2 + (snd v)\<^sup>2"
proof -
  have "(cos t * fst v + - sin t * snd v)\<^sup>2 + (sin t * fst v + cos t * snd v)\<^sup>2 =
          ((sin t)\<^sup>2 + (cos t)\<^sup>2) * ((fst v)\<^sup>2 + (snd v)\<^sup>2)"
    by algebra
  then show ?thesis
    by (simp add: dot_def calc_rot_matrix_def)
qed

lemma init_vec_polar: "init_vec alpha len = (len * cos alpha, len * sin alpha)"
  by (simp add: init_vec_def vec_len_def Let_def)

lemma init_vec_norm: "(fst (init_vec alpha len))\<^sup>2 + (snd (init_vec alpha len))\<^sup>2 = len\<^sup>2"
proof -
  have "(len * cos alpha)\<^sup>2 + (len * sin alpha)\<^sup>2 = len\<^sup>2 * ((sin alpha)\<^sup>2 + (cos alpha)\<^sup>2)"
    by algebra
  then show ?thesis by (simp add: init_vec_polar)
qed

lemma dot_rot_right:
  "dot (calc_rot_matrix (- t)) (r * cos phi, r * sin phi) = (r * cos (phi - t), r * sin (phi - t))"
  by (simp add: dot_def calc_rot_matrix_def cos_diff sin_diff algebra_simps)

lemma dot_rot_left:
  "dot (calc_rot_matrix t) (r * cos phi, r * sin phi) = (r * cos (phi + t), r * sin (phi + t))"
  by (simp add: dot_def calc_rot_matrix_def cos_add sin_add algebra_simps)

lemma turtle_loop_append:
  "turtle_loop L R (xs @ ys) s =
     (case turtle_loop L R xs s of Inl err \<Rightarrow> Inl err | Inr s' \<Rightarrow> turtle_loop L R ys s')"
proof (induction xs arbitrary: s)
  case Nil
  show ?case by (cases s) simp
next
  case (Cons st xs)
  obtain vec points k where s: "s = (vec, points, k)" by (cases s)
  show ?case unfolding s by (simp add: Cons.IH)
qed

lemma forward_steps_Nil: "forward_steps [] = 0"
  by (simp add: forward_steps_def)

lemma forward_steps_Cons:
  "forward_steps (st # states) =
     (if st = CHR ''+'' \<or> st = CHR ''-'' then forward_steps states
      else Suc (forward_steps states))"
  by (simp add: forward_steps_def)

lemma turtle_loop_fail:
  "k \<le> length points \<Longrightarrow>
   length points < k + forward_steps states \<Longrightarrow>
   turtle_loop L R states (vec, points, k) = Inl IndexError"
proof (induction states arbitrary: vec points k)
  case Nil
  then show ?case by (simp add: forward_steps_def)
next
  case (Cons st states)
  note prems = Cons.prems [unfolded forward_steps_Cons]
  show ?case
  proof (cases "st = CHR ''+'' \<or> st = CHR ''-''")
    case True
    with prems have "turtle_loop L R states (dot R vec, points, k) = Inl IndexError"
      and "turtle_loop L R states (dot L vec, points, k) = Inl IndexError"
      by (auto intro!: Cons.IH)
    with True show ?thesis by auto
  next
    case False
    show ?thesis
    proof (cases "k < length points")
      case True
      with prems False
      have "turtle_loop L R states
              (vec, points[k := vec_add (points ! (k - 1)) vec], k + 1) = Inl IndexError"
        by (intro Cons.IH) simp_all
      with True False show ?thesis by simp
    next
      case False
      with \<open>\<not> (st = CHR ''+'' \<or> st = CHR ''-'')\<close> show ?thesis by simp
    qed
  qed
qed


lemma turtle_loop_inv:
  assumes "0 < k" "k + forward_steps states \<le> length points"
    and "(fst vec)\<^sup>2 + (snd vec)\<^sup>2 = r2"
    and "\<forall>t. t + 1 < k \<longrightarrow>
           (fst (points ! (t + 1)) - fst (points ! t))\<^sup>2 +
           (snd (points ! (t + 1)) - snd (points ! t))\<^sup>2 = r2"
  shows "\<exists>vec' points'.
      turtle_loop (calc_rot_matrix ta) (calc_rot_matrix tb) states (vec, points, k) =
        Inr (vec', points', k + forward_steps states) \<and>
      length points' = length points \<and>
      (\<forall>t<k. points' ! t = points ! t) \<and>
      (fst vec')\<^sup>2 + (snd vec')\<^sup>2 = r2 \<and>
      (\<forall>t. t + 1 < k + forward_steps states \<longrightarrow>
           (fst (points' ! (t + 1)) - fst (points' ! t))\<^sup>2 +
           (snd (points' ! (t + 1)) - snd (points' ! t))\<^sup>2 = r2)"
  using assms
proof (induction states arbitrary: vec points k)
  case Nil
  then show ?case by (simp add: forward_steps_Nil)
next
  case (Cons st states)
  let ?L = "calc_rot_matrix ta" and ?R = "calc_rot_matrix tb"
  consider (plus) "st = CHR ''+''" | (minus) "st = CHR ''-''"
    | (fwd) "st \<noteq> CHR ''+''" "st \<noteq> CHR ''-''" by blast
  then show ?case
  proof cases
    case plus
    then have n: "forward_steps (st # states) = forward_steps states"
      by (simp add: forward_steps_Cons)
    have "(fst (dot ?R vec))\<^sup>2 + (snd (dot ?R vec))\<^sup>2 = r2"
      using Cons.prems(3) by (simp only: dot_rot_norm)
    from Cons.IH [OF Cons.prems(1) Cons.prems(2) [unfolded n] this Cons.prems(4)]
    show ?thesis unfolding n using plus by simp
  next
    case minus
    then have n: "forward_steps (st # states) = forward_steps states"
      by (simp add: forward_steps_Cons)
    have "(fst (dot ?L vec))\<^sup>2 + (snd (dot ?L vec))\<^sup>2 = r2"
      using Cons.prems(3) by (simp only: dot_rot_norm)
    from Cons.IH [OF Cons.prems(1) Cons.prems(2) [unfolded n] this Cons.prems(4)]
    show ?thesis unfolding n using minus by simp
  next
    case fwd
    then have n: "forward_steps (st # states) = Suc (forward_steps states)"
      by (simp add: forward_steps_Cons)
    from Cons.prems(2) n have k: "k < length points" by simp
    define points1 where "points1 = points[k := vec_add (points ! (k - 1)) vec]"
    have l1: "length points1 = length points" by (simp add: points1_def)
    have b1: "Suc k + forward_steps states \<le> length points1"
      using Cons.prems(2) n l1 by simp
    have low1: "t < k \<Longrightarrow> points1 ! t = points ! t" for t
      by (simp add: points1_def)
    have at1: "points1 ! k = vec_add (points ! (k - 1)) vec"
      using k by (simp add: points1_def)
    have inv1: "\<forall>t. t + 1 < Suc k \<longrightarrow>
           (fst (points1 ! (t + 1)) - fst (points1 ! t))\<^sup>2 +
           (snd (points1 ! (t + 1)) - snd (points1 ! t))\<^sup>2 = r2"
    proof (intro allI impI)
      fix t assume t: "t + 1 < Suc k"
      show "(fst (points1 ! (t + 1)) - fst (points1 ! t))\<^sup>2 +
           (snd (points1 ! (t + 1)) - snd (points1 ! t))\<^sup>2 = r2"
      proof (cases "t + 1 = k")
        case True
        then have "t = k - 1" "t < k" by simp_all
        with True at1 low1 [of t] Cons.prems(3) show ?thesis
          by (simp add: vec_add_def)
      next
        case False
        with t have "t + 1 < k" "t < k" by simp_all
        with Cons.prems(4) low1 [of t] low1 [of "t + 1"] show ?thesis by simp
      qed
    qed
    from Cons.IH [OF _ b1 Cons.prems(3) inv1]
    obtain vec' points' where
      run: "turtle_loop ?L ?R states (vec, points1, Suc k) =
              Inr (vec', points', Suc k + forward_steps states)"
      and len': "length points' = length points1"
      and low': "\<forall>t<Suc k. points' ! t = points1 ! t"
      and norm': "(fst vec')\<^sup>2 + (snd vec')\<^sup>2 = r2"
      and inv': "\<forall>t. t + 1 < Suc k + forward_steps states \<longrightarrow>
           (fst (points' ! (t + 1)) - fst (points' ! t))\<^sup>2 +
           (snd (points' ! (t + 1)) - snd (points' ! t))\<^sup>2 = r2"
      by auto
    have res: "turtle_loop ?L ?R (st # states) (vec, points, k) =
                 Inr (vec', points', k + forward_steps (st # states))"
      using fwd k run by (simp add: n points1_def)
    have low: "\<forall>t<k. points' ! t = points ! t"
      using low' low1 by simp
    from inv' have inv: "\<forall>t. t + 1 < k + forward_steps (st # states) \<longrightarrow>
           (fst (points' ! (t + 1)) - fst (points' ! t))\<^sup>2 +
           (snd (points' ! (t + 1)) - snd (points' ! t))\<^sup>2 = r2"
      by (simp add: n)
    from res len' l1 low norm' inv show ?thesis by auto
  qed
qed

lemma turtle_loop_frame:
  "turtle_loop L R states (vec, points, k) = Inr (vec', points', k') \<Longrightarrow> t < k \<Longrightarrow>
   points' ! t = points ! t"
proof (induction states arbitrary: vec points k)
  case Nil
  then show ?case by simp
next
  case (Cons st states)
  consider (plus) "st = CHR ''+''" | (minus) "st = CHR ''-''"
    | (fwd) "st \<noteq> CHR ''+''" "st \<noteq> CHR ''-''" by blast
  then show ?case
  proof cases
    case plus
    with Cons.prems show ?thesis by (simp add: Cons.IH)
  next
    case minus
    with Cons.prems show ?thesis by (simp add: Cons.IH)
  next
    case fwd
    show ?thesis
    proof (cases "k < length points")
      case True
      with fwd Cons.prems(1)
      have "turtle_loop L R states
              (vec, points[k := vec_add (points ! (k - 1)) vec], k + 1) = Inr (vec', points', k')"
        by simp
      from Cons.IH [OF this] Cons.prems(2)
      have "points' ! t = points[k := vec_add (points ! (k - 1)) vec] ! t" by simp
      with Cons.prems(2) show ?thesis by simp
    next
      case False
      with fwd Cons.prems(1) show ?thesis by simp
    qed
  qed
qed

lemma forward_steps_count:
  "forward_steps states =
     count_list states (CHR ''F'') +
     length (filter (\<lambda>st. st \<notin> {CHR ''F'', CHR ''+'', CHR ''-''}) states)"
  by (induction states) (auto simp: forward_steps_Nil forward_steps_Cons)

lemma forward_steps_alphabet:
  assumes "set states \<subseteq> {CHR ''F'', CHR ''+'', CHR ''-''}"
  shows "forward_steps states = count_list states (CHR ''F'')"
proof -
  from assms have "filter (\<lambda>st. st \<notin> {CHR ''F'', CHR ''+'', CHR ''-''}) states = []"
    by (auto simp: filter_empty_conv)
  then show ?thesis by (simp add: forward_steps_count)
qed

lemma forward_steps_other:
  assumes "\<exists>st\<in>set states. st \<notin> {CHR ''F'', CHR ''+'', CHR ''-''}"
  shows "count_list states (CHR ''F'') < forward_steps states"
proof -
  from assms have "filter (\<lambda>st. st \<notin> {CHR ''F'', CHR ''+'', CHR ''-''}) states \<noteq> []"
    by (simp add: filter_empty_conv)
  then show ?thesis by (simp add: forward_steps_count)
qed

lemma square: "generate_points 0 90 1 ''F+F+F+F'' = Inr [(0, 0), (1, 0), (1, - 1), (0, - 1), (0, 0)]"
  by (simp add: generate_points_def Let_def init_vec_polar radians_def calc_rot_matrix_def
      dot_def vec_add_def)


lemma two_steps_right:
  "generate_points alpha theta len ''F+F'' =
     Inr [(0, 0),
          (len * cos (radians alpha), len * sin (radians alpha)),
          (len * cos (radians alpha) + len * cos (radians alpha - radians theta),
           len * sin (radians alpha) + len * sin (radians alpha - radians theta))]"
  by (simp add: generate_points_def Let_def init_vec_polar dot_rot_right vec_add_def)

lemma two_steps_left:
  "generate_points alpha theta len ''F-F'' =
     Inr [(0, 0),
          (len * cos (radians alpha), len * sin (radians alpha)),
          (len * cos (radians alpha) + len * cos (radians alpha + radians theta),
           len * sin (radians alpha) + len * sin (radians alpha + radians theta))]"
  by (simp add: generate_points_def Let_def init_vec_polar dot_rot_left vec_add_def)

lemma plus_step:
  "turtle_loop L (calc_rot_matrix (- t)) (CHR ''+'' # states)
       ((r * cos phi, r * sin phi), points, k) =
     turtle_loop L (calc_rot_matrix (- t)) states
       ((r * cos (phi - t), r * sin (phi - t)), points, k)"
  by (simp add: dot_rot_right)

lemma minus_step:
  "turtle_loop (calc_rot_matrix t) R (CHR ''-'' # states)
       ((r * cos phi, r * sin phi), points, k) =
     turtle_loop (calc_rot_matrix t) R states
       ((r * cos (phi + t), r * sin (phi + t)), points, k)"
  by (simp add: dot_rot_left)

text \<open>
  Claim C3. The symbol \<open>+\<close> multiplies the heading by \<open>rot_right\<close>, the matrix of the
  negative angle, and so turns a heading at the angle \<open>phi\<close> to the angle \<open>phi - t\<close>,
  clockwise; the symbol \<open>-\<close> multiplies it by \<open>rot_left\<close>, the matrix of the positive
  angle, and turns it to \<open>phi + t\<close>, counter-clockwise. On \<open>generate_points\<close> itself: the
  second step of \<open>F+F\<close> goes at the angle \<open>alpha - theta\<close> and the second step of \<open>F-F\<close> at
  \<open>alpha + theta\<close>, and the square \<open>F+F+F+F\<close> at 90 degrees from heading \<open>(1, 0)\<close> visits
  \<open>(0,0), (1,0), (1,-1), (0,-1), (0,0)\<close>. Over the reals the values are exact.
\<close>

theorem turtle_sign_convention:
  "turtle_loop L (calc_rot_matrix (- t)) (CHR ''+'' # states)
       ((r * cos phi, r * sin phi), points, k) =
     turtle_loop L (calc_rot_matrix (- t)) states
       ((r * cos (phi - t), r * sin (phi - t)), points, k) \<and>
   turtle_loop (calc_rot_matrix t) R (CHR ''-'' # states)
       ((r * cos phi, r * sin phi), points, k) =
     turtle_loop (calc_rot_matrix t) R states
       ((r * cos (phi + t), r * sin (phi + t)), points, k) \<and>
   generate_points alpha theta len ''F+F'' =
     Inr [(0, 0),
          (len * cos (radians alpha), len * sin (radians alpha)),
          (len * cos (radians alpha) + len * cos (radians alpha - radians theta),
           len * sin (radians alpha) + len * sin (radians alpha - radians theta))] \<and>
   generate_points alpha theta len ''F-F'' =
     Inr [(0, 0),
          (len * cos (radians alpha), len * sin (radians alpha)),
          (len * cos (radians alpha) + len * cos (radians alpha + radians theta),
           len * sin (radians alpha) + len * sin (radians alpha + radians theta))] \<and>
   generate_points 0 90 1 ''F+F+F+F'' = Inr [(0, 0), (1, 0), (1, - 1), (0, - 1), (0, 0)]"
  by (simp only: two_steps_right two_steps_left square plus_step minus_step simp_thms)

text \<open>
  Claim C7. On a string over \<open>{F, +, -}\<close> the interpreter returns \<open>count('F') + 1\<close> points,
  the first of them the origin, and any two consecutive points are \<open>\<bar>len\<bar>\<close> apart, which is
  the step length for a step length that is not negative. Moreover, at every position
  of the string (\<open>states = pre @ suf\<close>) the loop has reached a state whose heading \<open>vec\<close> has
  the magnitude \<open>\<bar>len\<bar>\<close>, however many rotations \<open>pre\<close> holds, and if the next symbol is an
  \<open>F\<close>, the point it writes is the previous point plus that heading.
\<close>

theorem turtle_polyline:
  assumes "set states \<subseteq> {CHR ''F'', CHR ''+'', CHR ''-''}"
  shows "\<exists>points. generate_points alpha theta len states = Inr points \<and>
      length points = count_list states (CHR ''F'') + 1 \<and>
      points ! 0 = (0, 0) \<and>
      (\<forall>t<count_list states (CHR ''F'').
         vec_len (fst (points ! (t + 1)) - fst (points ! t),
                  snd (points ! (t + 1)) - snd (points ! t)) = \<bar>len\<bar>) \<and>
      (\<forall>pre suf. states = pre @ suf \<longrightarrow>
         (\<exists>vec pts.
            turtle_loop (calc_rot_matrix (radians theta)) (calc_rot_matrix (- radians theta)) pre
              (init_vec (radians alpha) len,
               replicate (count_list states (CHR ''F'') + 1) (0, 0), 1) =
              Inr (vec, pts, count_list pre (CHR ''F'') + 1) \<and>
            vec_len vec = \<bar>len\<bar> \<and>
            (\<forall>suf'. suf = CHR ''F'' # suf' \<longrightarrow>
               points ! (count_list pre (CHR ''F'') + 1) =
                 vec_add (points ! count_list pre (CHR ''F'')) vec)))"
proof -
  let ?L = "calc_rot_matrix (radians theta)" and ?R = "calc_rot_matrix (- radians theta)"
  let ?v0 = "init_vec (radians alpha) len"
  let ?n = "count_list states (CHR ''F'')"
  let ?P0 = "replicate (?n + 1) (0::real, 0::real)"
  have fs: "forward_steps states = ?n"
    using assms by (rule forward_steps_alphabet)
  have v0: "(fst ?v0)\<^sup>2 + (snd ?v0)\<^sup>2 = len\<^sup>2" by (rule init_vec_norm)
  have vac: "\<forall>t. t + 1 < 1 \<longrightarrow>
           (fst (ps ! (t + 1)) - fst (ps ! t))\<^sup>2 +
           (snd (ps ! (t + 1)) - snd (ps ! t))\<^sup>2 = len\<^sup>2" for ps :: "vec2 list"
    by simp
  have "1 + forward_steps states \<le> length ?P0" by (simp add: fs)
  from turtle_loop_inv [OF _ this v0 vac, of "radians theta" "- radians theta"]
  obtain vec' points' where
    run: "turtle_loop ?L ?R states (?v0, ?P0, 1) = Inr (vec', points', 1 + forward_steps states)"
    and len': "length points' = length ?P0"
    and low': "\<forall>t<1. points' ! t = ?P0 ! t"
    and inv': "\<forall>t. t + 1 < 1 + forward_steps states \<longrightarrow>
           (fst (points' ! (t + 1)) - fst (points' ! t))\<^sup>2 +
           (snd (points' ! (t + 1)) - snd (points' ! t))\<^sup>2 = len\<^sup>2"
    by auto
  have res: "generate_points alpha theta len states = Inr points'"
    using run by (simp add: generate_points_def Let_def)
  have len: "length points' = ?n + 1" using len' by simp
  have origin: "points' ! 0 = (0, 0)" using low' by simp
  have dist: "\<forall>t<?n. vec_len (fst (points' ! (t + 1)) - fst (points' ! t),
                  snd (points' ! (t + 1)) - snd (points' ! t)) = \<bar>len\<bar>"
    using inv' by (simp add: fs vec_len_def)
  have split: "\<exists>vec pts.
            turtle_loop ?L ?R pre (?v0, ?P0, 1) = Inr (vec, pts, count_list pre (CHR ''F'') + 1) \<and>
            vec_len vec = \<bar>len\<bar> \<and>
            (\<forall>suf'. suf = CHR ''F'' # suf' \<longrightarrow>
               points' ! (count_list pre (CHR ''F'') + 1) =
                 vec_add (points' ! count_list pre (CHR ''F'')) vec)"
    if st: "states = pre @ suf" for pre suf
  proof -
    let ?k = "count_list pre (CHR ''F'') + 1"
    from assms st have "set pre \<subseteq> {CHR ''F'', CHR ''+'', CHR ''-''}" by simp
    then have fsp: "forward_steps pre = count_list pre (CHR ''F'')"
      by (rule forward_steps_alphabet)
    have n: "?n = count_list pre (CHR ''F'') + count_list suf (CHR ''F'')"
      by (simp add: st)
    then have "1 + forward_steps pre \<le> length ?P0" by (simp add: fsp)
    from turtle_loop_inv [OF _ this v0 vac, of "radians theta" "- radians theta"]
    obtain vec1 pts1 where
      run1: "turtle_loop ?L ?R pre (?v0, ?P0, 1) = Inr (vec1, pts1, 1 + forward_steps pre)"
      and len1: "length pts1 = length ?P0"
      and norm1: "(fst vec1)\<^sup>2 + (snd vec1)\<^sup>2 = len\<^sup>2"
      by auto
    have r1: "turtle_loop ?L ?R pre (?v0, ?P0, 1) = Inr (vec1, pts1, ?k)"
      using run1 by (simp add: fsp)
    have vl: "vec_len vec1 = \<bar>len\<bar>" by (simp add: vec_len_def norm1)
    have at: "points' ! ?k = vec_add (points' ! count_list pre (CHR ''F'')) vec1"
      if suf: "suf = CHR ''F'' # suf'" for suf'
    proof -
      from n suf len1 have k: "?k < length pts1" by simp
      let ?pts2 = "pts1[?k := vec_add (pts1 ! (?k - 1)) vec1]"
      from run st r1 have "turtle_loop ?L ?R suf (vec1, pts1, ?k) =
          Inr (vec', points', 1 + forward_steps states)"
        by (simp add: turtle_loop_append)
      with suf k have "turtle_loop ?L ?R suf' (vec1, ?pts2, ?k + 1) =
          Inr (vec', points', 1 + forward_steps states)"
        by simp
      then have fr: "t < ?k + 1 \<Longrightarrow> points' ! t = ?pts2 ! t" for t
        by (rule turtle_loop_frame)
      from fr [of ?k] k have "points' ! ?k = vec_add (pts1 ! (?k - 1)) vec1" by simp
      moreover from fr [of "?k - 1"] have "points' ! (?k - 1) = pts1 ! (?k - 1)" by simp
      ultimately show ?thesis by simp
    qed
    from r1 vl at show ?thesis by blast
  qed
  from res len origin dist split show ?thesis by blast
qed

theorem turtle_polyline_witness:
  "\<exists>points. generate_points 0 90 2 ''F+F-'' = Inr points \<and>
      length points = count_list ''F+F-'' (CHR ''F'') + 1 \<and>
      points ! 0 = (0, 0) \<and>
      (\<forall>t<count_list ''F+F-'' (CHR ''F'').
         vec_len (fst (points ! (t + 1)) - fst (points ! t),
                  snd (points ! (t + 1)) - snd (points ! t)) = \<bar>2\<bar>) \<and>
      (\<forall>pre suf. ''F+F-'' = pre @ suf \<longrightarrow>
         (\<exists>vec pts.
            turtle_loop (calc_rot_matrix (radians 90)) (calc_rot_matrix (- radians 90)) pre
              (init_vec (radians 0) 2,
               replicate (count_list ''F+F-'' (CHR ''F'') + 1) (0, 0), 1) =
              Inr (vec, pts, count_list pre (CHR ''F'') + 1) \<and>
            vec_len vec = \<bar>2\<bar> \<and>
            (\<forall>suf'. suf = CHR ''F'' # suf' \<longrightarrow>
               points ! (count_list pre (CHR ''F'') + 1) =
                 vec_add (points ! count_list pre (CHR ''F'')) vec)))"
  by (rule turtle_polyline) simp

text \<open>
  Claim C10. Every character other than \<open>+\<close> and \<open>-\<close> takes the \<open>else\<close> branch and writes a
  column, while \<open>points\<close> has \<open>count('F') + 1\<close> columns. A string with a character outside
  \<open>{F, +, -}\<close> therefore writes past the last column: the call raises \<open>IndexError\<close> and
  returns no points.
\<close>

theorem turtle_other_symbol_fails:
  assumes "\<exists>st\<in>set states. st \<notin> {CHR ''F'', CHR ''+'', CHR ''-''}"
  shows "generate_points alpha theta len states = Inl IndexError"
proof -
  let ?points = "replicate (count_list states (CHR ''F'') + 1) (0::real, 0::real)"
  from forward_steps_other [OF assms]
  have "length ?points < 1 + forward_steps states" by simp
  moreover have "1 \<le> length ?points" by simp
  ultimately have "turtle_loop (calc_rot_matrix (radians theta)) (calc_rot_matrix (- radians theta))
      states (init_vec (radians alpha) len, ?points, 1) = Inl IndexError"
    by (rule turtle_loop_fail [rotated])
  then show ?thesis by (simp add: generate_points_def Let_def)
qed

theorem turtle_other_symbol_fails_witness:
  "generate_points 0 90 1 ''FXF'' = Inl IndexError"
  by (rule turtle_other_symbol_fails) simp

end
